theory Spec2Isabelle
  imports Main "HOL-Library.AList"
begin

section \<open>JavaScript values used by extract-prayer-times.js\<close>

text \<open>
  The script is dynamically typed. A Number is either NaN or an integer: every Number the
  script computes comes from \<open>parseInt\<close> on a decimal (or 0x-prefixed) digit run, plus 12.
  Integers are modelled by \<open>int\<close>; they coincide with the IEEE doubles of the script
  while the magnitude stays below \<open>2^53\<close>, which covers every clock reading. Strings are
  lists of 8-bit characters, read as the code units U+0000 to U+00FF.
\<close>

datatype jsnum = NaN | Num int

datatype jsval = JUndefined | JNum jsnum | JStr string

datatype error = NoPrayerData | TypeError

subsection \<open>String primitives\<close>

text \<open>White space and line terminators of ECMAScript within U+0000..U+00FF:
  TAB, LF, VT, FF, CR, SP and NBSP.\<close>

definition isWhiteSpace :: "char \<Rightarrow> bool" where
  "isWhiteSpace c =
     (c = CHR 0x09 \<or> c = CHR 0x0A \<or> c = CHR 0x0B \<or> c = CHR 0x0C \<or> c = CHR 0x0D
      \<or> c = CHR 0x20 \<or> c = CHR 0xA0)"

text \<open>\<open>String.prototype.trim\<close>.\<close>

definition trim :: "string \<Rightarrow> string" where
  "trim s = rev (dropWhile isWhiteSpace (rev (dropWhile isWhiteSpace s)))"

text \<open>\<open>s.split(c)\<close> for a one-character separator: the result is never empty, and
  \<open>''''.split(c)\<close> is the one-element list holding the empty string.\<close>

fun split_str :: "char \<Rightarrow> string \<Rightarrow> string list" where
  "split_str c [] = [[]]"
| "split_str c (x # xs) =
     (if x = c then [] # split_str c xs
      else (case split_str c xs of
              [] \<Rightarrow> [[x]]
            | seg # segs \<Rightarrow> (x # seg) # segs))"

text \<open>\<open>arr[i]\<close> on an array of strings: \<open>undefined\<close> out of range.\<close>

definition index :: "string list \<Rightarrow> nat \<Rightarrow> jsval" where
  "index arr i = (if i < length arr then JStr (arr ! i) else JUndefined)"

text \<open>\<open>v.trim()\<close> on an arbitrary value: only a string has the method.\<close>

definition js_trim :: "jsval \<Rightarrow> error + string" where
  "js_trim v = (case v of JStr s \<Rightarrow> Inr (trim s) | _ \<Rightarrow> Inl TypeError)"

text \<open>\<open>s.padStart(n, c)\<close> for a one-character pad string.\<close>

definition padStart :: "nat \<Rightarrow> char \<Rightarrow> string \<Rightarrow> string" where
  "padStart n c s = replicate (n - length s) c @ s"

subsection \<open>Numbers to strings and back\<close>

definition digit_char :: "nat \<Rightarrow> char" where
  "digit_char d = ''0123456789'' ! d"

fun digits :: "nat \<Rightarrow> string" where
  "digits n = (if n < 10 then [digit_char n] else digits (n div 10) @ [digit_char (n mod 10)])"

declare digits.simps [simp del]

text \<open>\<open>Number.prototype.toString()\<close> with the default radix.\<close>

definition numToString :: "jsnum \<Rightarrow> string" where
  "numToString x =
     (case x of
        NaN \<Rightarrow> ''NaN''
      | Num n \<Rightarrow> (if n < 0 then CHR ''-'' # digits (nat (- n)) else digits (nat n)))"

text \<open>The abstract operation ToString on the values that reach \<open>parseInt\<close>.\<close>

definition ToString :: "jsval \<Rightarrow> string" where
  "ToString v = (case v of JUndefined \<Rightarrow> ''undefined'' | JNum x \<Rightarrow> numToString x | JStr s \<Rightarrow> s)"

text \<open>The value of a character as a digit of the given radix, if it is one.\<close>

definition digitOf :: "nat \<Rightarrow> char \<Rightarrow> nat option" where
  "digitOf radix c =
     (let n = (of_char c :: nat);
          v = (if 48 \<le> n \<and> n \<le> 57 then Some (n - 48)
               else if 97 \<le> n \<and> n \<le> 122 then Some (n - 87)
               else if 65 \<le> n \<and> n \<le> 90 then Some (n - 55)
               else None)
      in case v of None \<Rightarrow> None | Some d \<Rightarrow> (if d < radix then Some d else None))"

text \<open>The longest prefix of digits, read in the radix; \<open>None\<close> when that prefix is empty.\<close>

fun parseDigits :: "nat \<Rightarrow> string \<Rightarrow> nat option \<Rightarrow> nat option" where
  "parseDigits radix [] acc = acc"
| "parseDigits radix (c # cs) acc =
     (case digitOf radix c of
        None \<Rightarrow> acc
      | Some d \<Rightarrow> parseDigits radix cs (Some (case acc of None \<Rightarrow> d | Some a \<Rightarrow> a * radix + d)))"

text \<open>\<open>parseInt(v)\<close> with no radix argument: leading white space is skipped, a sign is
  read, a \<open>0x\<close> or \<open>0X\<close> prefix selects radix 16, and anything after the digit run is
  ignored. No digit at all gives NaN.\<close>

definition parseInt :: "jsval \<Rightarrow> jsnum" where
  "parseInt v =
     (let S = dropWhile isWhiteSpace (ToString v);
          sign = (if S \<noteq> [] \<and> hd S = CHR ''-'' then - 1 else (1::int));
          S1 = (if S \<noteq> [] \<and> (hd S = CHR ''+'' \<or> hd S = CHR ''-'') then tl S else S);
          hex = (take 2 S1 = ''0x'' \<or> take 2 S1 = ''0X'');
          R = (if hex then 16 else 10);
          S2 = (if hex then drop 2 S1 else S1)
      in case parseDigits R S2 None of
           None \<Rightarrow> NaN
         | Some n \<Rightarrow> Num (sign * int n))"

section \<open>convertTo24Hour\<close>

text \<open>Lines 49-52: with several comma-separated times only the first one is kept.\<close>

definition firstTime :: "string \<Rightarrow> error + string" where
  "firstTime timeStr =
     (if CHR '','' \<in> set timeStr then js_trim (index (split_str CHR '','' timeStr) 0)
      else Inr timeStr)"

text \<open>Lines 54-55.\<close>

definition parseHours :: "string \<Rightarrow> jsnum" where
  "parseHours timeStr = parseInt (index (split_str CHR '':'' timeStr) 0)"

definition parseMinutes :: "string \<Rightarrow> jsnum" where
  "parseMinutes timeStr = parseInt (index (split_str CHR '':'' timeStr) 1)"

text \<open>\<open>hours += 12\<close>.\<close>

definition plus12 :: "jsnum \<Rightarrow> jsnum" where
  "plus12 x = (case x of NaN \<Rightarrow> NaN | Num n \<Rightarrow> Num (n + 12))"

text \<open>Lines 58-67: the conversion rules by prayer name.\<close>

definition adjustHours :: "string \<Rightarrow> jsnum \<Rightarrow> jsnum" where
  "adjustHours prayerName hours =
     (if prayerName = ''Fajr'' \<or> prayerName = ''Sunrise'' then
        (if hours = Num 12 then Num 0 else hours)
      else if prayerName = ''Dhuhr'' \<or> prayerName = ''Asr'' then
        (if hours \<noteq> Num 12 then plus12 hours else hours)
      else if prayerName = ''Magrib'' \<or> prayerName = ''Isha'' then
        (if hours \<noteq> Num 12 then plus12 hours else hours)
      else hours)"

text \<open>Line 70.\<close>

definition formatTime :: "jsnum \<Rightarrow> jsnum \<Rightarrow> string" where
  "formatTime hours minutes =
     padStart 2 CHR ''0'' (numToString hours) @ '':'' @ padStart 2 CHR ''0'' (numToString minutes)"

text \<open>Lines 54-70 on the string that is left after the comma handling.\<close>

definition convertParsed :: "string \<Rightarrow> string \<Rightarrow> string" where
  "convertParsed timeStr prayerName =
     formatTime (adjustHours prayerName (parseHours timeStr)) (parseMinutes timeStr)"

text \<open>Line 45, \<open>!timeStr\<close>: the falsy values among those modelled.\<close>

definition falsy :: "jsval \<Rightarrow> bool" where
  "falsy v = (case v of JUndefined \<Rightarrow> True | JNum x \<Rightarrow> x = NaN \<or> x = Num 0 | JStr s \<Rightarrow> s = [])"

text \<open>The whole function. A truthy value that is not a string has no \<open>trim\<close> method,
  and the call on line 45 throws. The call of \<open>log\<close> on line 51 only appends to the log
  file and is left out.\<close>

definition convertTo24Hour :: "jsval \<Rightarrow> string \<Rightarrow> error + string" where
  "convertTo24Hour timeStr prayerName =
     (if falsy timeStr then Inr []
      else case js_trim timeStr of
             Inl e \<Rightarrow> Inl e
           | Inr t \<Rightarrow>
               (if t = [] then Inr []
                else case firstTime (ToString timeStr) of
                       Inl e \<Rightarrow> Inl e
                     | Inr s \<Rightarrow> Inr (convertParsed s prayerName)))"

section \<open>The Date object\<close>

text \<open>
  A Date is kept as its local calendar reading: year, month (0 to 11), day of the month
  and the time within the day in milliseconds. The script reads \<open>new Date()\<close> once and
  builds every other Date with \<open>new Date(y, m, d)\<close>, at local midnight. The constructor
  accepts a month or a day outside its range and carries the excess over, which the
  script uses for "day 0 of the next month".
\<close>

record jsdate =
  fullYear :: int
  monthIndex :: int
  dayOfMonth :: int
  msOfDay :: int

definition isLeap :: "int \<Rightarrow> bool" where
  "isLeap y = (y mod 4 = 0 \<and> (y mod 100 \<noteq> 0 \<or> y mod 400 = 0))"

definition monthLength :: "int \<Rightarrow> int \<Rightarrow> int" where
  "monthLength y m =
     (if m = 1 then (if isLeap y then 29 else 28)
      else if m = 3 \<or> m = 5 \<or> m = 8 \<or> m = 10 then 30
      else 31)"

definition prevYear :: "int \<Rightarrow> int \<Rightarrow> int" where
  "prevYear y m = (if m = 0 then y - 1 else y)"

definition prevMonth :: "int \<Rightarrow> int" where
  "prevMonth m = (if m = 0 then 11 else m - 1)"

definition nextYear :: "int \<Rightarrow> int \<Rightarrow> int" where
  "nextYear y m = (if m = 11 then y + 1 else y)"

definition nextMonth :: "int \<Rightarrow> int" where
  "nextMonth m = (if m = 11 then 0 else m + 1)"

text \<open>Carrying a day of the month that lies outside the month into the neighbouring
  months, as MakeDay does through the day count.\<close>

function normDay :: "int \<Rightarrow> int \<Rightarrow> int \<Rightarrow> jsdate" where
  "normDay y m d =
     (if d < 1 then
        normDay (prevYear y m) (prevMonth m) (d + monthLength (prevYear y m) (prevMonth m))
      else if monthLength y m < d then
        normDay (nextYear y m) (nextMonth m) (d - monthLength y m)
      else \<lparr>fullYear = y, monthIndex = m, dayOfMonth = d, msOfDay = 0\<rparr>)"
  by pat_completeness auto
termination
  by (relation "measure (\<lambda>(y, m, d). if d < 1 then nat (32 - d) else nat d)")
     (auto simp: monthLength_def)

declare normDay.simps [simp del]

text \<open>\<open>new Date(y, m, d)\<close>: a year from 0 to 99 means 1900 + y, and the month carries
  into the year.\<close>

definition newDate :: "int \<Rightarrow> int \<Rightarrow> int \<Rightarrow> jsdate" where
  "newDate y m d =
     (let yr = (if 0 \<le> y \<and> y \<le> 99 then 1900 + y else y)
      in normDay (yr + m div 12) (m mod 12) d)"

definition getFullYear :: "jsdate \<Rightarrow> int" where
  "getFullYear t = fullYear t"

definition getMonth :: "jsdate \<Rightarrow> int" where
  "getMonth t = monthIndex t"

definition getDate :: "jsdate \<Rightarrow> int" where
  "getDate t = dayOfMonth t"

text \<open>DayFromYear of ECMAScript: the day number of 1 January, counted from 1 January
  1970, a Thursday.\<close>

definition dayFromYear :: "int \<Rightarrow> int" where
  "dayFromYear y =
     365 * (y - 1970) + (y - 1969) div 4 - (y - 1901) div 100 + (y - 1601) div 400"

definition daysBeforeMonth :: "int \<Rightarrow> int \<Rightarrow> int" where
  "daysBeforeMonth y m = sum_list (map (monthLength y) [0..m - 1])"

text \<open>\<open>getDay()\<close>: 0 is Sunday.\<close>

definition getDay :: "jsdate \<Rightarrow> int" where
  "getDay t =
     (dayFromYear (fullYear t) + daysBeforeMonth (fullYear t) (monthIndex t)
        + dayOfMonth t - 1 + 4) mod 7"

section \<open>The scraped week and its processing\<close>

text \<open>An object with string values is an association list in the order of its keys.\<close>

type_synonym time_row = "(string \<times> string) list"

record prayer_times =
  start :: string
  iqamah :: string

record day_info =
  dayNumber :: int
  dayOfWeek :: int
  isToday :: bool

text \<open>One element of \<open>extractedData\<close>; \<open>prayers\<close> is read through \<open>Object.entries\<close>.\<close>

record scraped_day = day_info +
  date :: string
  prayers :: "(string \<times> prayer_times) list"

text \<open>One element of \<open>processedWeekData\<close>.\<close>

record processed_day = day_info +
  athan :: time_row
  iqama :: time_row

text \<open>One record of a month table: \<open>{ day: day, ...row }\<close>.\<close>

record month_row =
  day :: int
  times :: time_row

definition hasOwnProperty :: "time_row \<Rightarrow> string \<Rightarrow> bool" where
  "hasOwnProperty row k = (k \<in> set (map fst row))"

text \<open>\<open>xs.forEach(f)\<close> with the state that \<open>f\<close> changes passed along; an exception
  thrown by \<open>f\<close> ends the loop.\<close>

fun forEach :: "('a \<Rightarrow> 's \<Rightarrow> error + 's) \<Rightarrow> 'a list \<Rightarrow> 's \<Rightarrow> error + 's" where
  "forEach f [] s = Inr s"
| "forEach f (x # xs) s = (case f x s of Inl e \<Rightarrow> Inl e | Inr s' \<Rightarrow> forEach f xs s')"

text \<open>Lines 171-172.\<close>

definition emptyAthanRow :: time_row where
  "emptyAthanRow =
     [(''Fajr'', []), (''Sunrise'', []), (''Dhuhr'', []), (''Asr'', []), (''Maghrib'', []),
      (''Isha'', [])]"

definition emptyIqamaRow :: time_row where
  "emptyIqamaRow =
     [(''Fajr'', []), (''Dhuhr'', []), (''Asr'', []), (''Maghrib'', []), (''Isha'', [])]"

text \<open>Lines 175-192: one entry of \<open>day.prayers\<close>; the state is the pair of rows.\<close>

definition processPrayer ::
  "string \<times> prayer_times \<Rightarrow> time_row \<times> time_row \<Rightarrow> error + time_row \<times> time_row" where
  "processPrayer entry rows =
     (let name = fst entry;
          t = snd entry;
          athanRow = fst rows;
          iqamaRow = snd rows;
          correctedName = (if name = ''Magrib'' then ''Maghrib'' else name)
      in case convertTo24Hour (JStr (start t)) name of
           Inl e \<Rightarrow> Inl e
         | Inr start24 \<Rightarrow>
            (case convertTo24Hour (JStr (iqamah t)) name of
               Inl e \<Rightarrow> Inl e
             | Inr iqamah24 \<Rightarrow>
                 Inr (if hasOwnProperty athanRow correctedName
                      then AList.update correctedName start24 athanRow else athanRow,
                      if hasOwnProperty iqamaRow correctedName \<and> correctedName \<noteq> ''Sunrise''
                      then AList.update correctedName iqamah24 iqamaRow else iqamaRow)))"

text \<open>Lines 164-201: one element of \<open>extractedData\<close>; the state is
  \<open>processedWeekData\<close>.\<close>

definition processDay :: "scraped_day \<Rightarrow> processed_day list \<Rightarrow> error + processed_day list" where
  "processDay d processedWeekData =
     (if dayNumber d \<le> 0 then Inr processedWeekData
      else case forEach processPrayer (prayers d) (emptyAthanRow, emptyIqamaRow) of
             Inl e \<Rightarrow> Inl e
           | Inr rows \<Rightarrow>
               Inr (processedWeekData @
                    [\<lparr>dayNumber = dayNumber d, dayOfWeek = dayOfWeek d, isToday = isToday d,
                      athan = fst rows, iqama = snd rows\<rparr>]))"

text \<open>Lines 219-227.\<close>

definition dayOfWeekMapStep ::
  "processed_day \<Rightarrow> (int \<rightharpoonup> time_row \<times> time_row) \<Rightarrow> (int \<rightharpoonup> time_row \<times> time_row)" where
  "dayOfWeekMapStep d m = (if 0 \<le> dayOfWeek d then m(dayOfWeek d \<mapsto> (athan d, iqama d)) else m)"

definition buildDayOfWeekMap :: "processed_day list \<Rightarrow> (int \<rightharpoonup> time_row \<times> time_row)" where
  "buildDayOfWeekMap processedWeekData = fold dayOfWeekMapStep processedWeekData Map.empty"

section \<open>Month expansion\<close>

text \<open>\<open>processedWeekData[0]\<close> followed by a property read, which throws on
  \<open>undefined\<close>.\<close>

definition firstRecord :: "processed_day list \<Rightarrow> error + processed_day" where
  "firstRecord processedWeekData =
     (case processedWeekData of [] \<Rightarrow> Inl TypeError | r # _ \<Rightarrow> Inr r)"

definition pushRows ::
  "int \<Rightarrow> time_row \<Rightarrow> time_row \<Rightarrow> month_row list \<times> month_row list
     \<Rightarrow> month_row list \<times> month_row list" where
  "pushRows d a i tables =
     (fst tables @ [\<lparr>day = d, times = a\<rparr>], snd tables @ [\<lparr>day = d, times = i\<rparr>])"

text \<open>Lines 250-279 and 347-372: the row of a day that has no record of its own.\<close>

definition patternRows ::
  "processed_day list \<Rightarrow> (int \<rightharpoonup> time_row \<times> time_row) \<Rightarrow> int \<Rightarrow> int \<Rightarrow> int
     \<Rightarrow> month_row list \<times> month_row list \<Rightarrow> error + month_row list \<times> month_row list" where
  "patternRows processedWeekData dayOfWeekMap year month d tables =
     (case dayOfWeekMap (getDay (newDate year month d)) of
        Some entry \<Rightarrow> Inr (pushRows d (fst entry) (snd entry) tables)
      | None \<Rightarrow>
         (case firstRecord processedWeekData of
            Inl e \<Rightarrow> Inl e
          | Inr r \<Rightarrow> Inr (pushRows d (athan r) (iqama r) tables)))"

text \<open>Lines 233-280: the body of the loop over the current month.\<close>

definition currentMonthDay ::
  "processed_day list \<Rightarrow> (int \<rightharpoonup> time_row \<times> time_row) \<Rightarrow> int \<Rightarrow> int \<Rightarrow> int
     \<Rightarrow> month_row list \<times> month_row list \<Rightarrow> error + month_row list \<times> month_row list" where
  "currentMonthDay processedWeekData dayOfWeekMap year month d tables =
     (case find (\<lambda>r. dayNumber r = d) processedWeekData of
        Some dayData \<Rightarrow> Inr (pushRows d (athan dayData) (iqama dayData) tables)
      | None \<Rightarrow> patternRows processedWeekData dayOfWeekMap year month d tables)"

definition expandCurrentMonth ::
  "processed_day list \<Rightarrow> (int \<rightharpoonup> time_row \<times> time_row) \<Rightarrow> int \<Rightarrow> int \<Rightarrow> int
     \<Rightarrow> error + month_row list \<times> month_row list" where
  "expandCurrentMonth processedWeekData dayOfWeekMap year month daysInMonth =
     forEach (currentMonthDay processedWeekData dayOfWeekMap year month) [1..daysInMonth] ([], [])"

text \<open>Lines 346-373: the loop over the next month never looks a day number up.\<close>

definition expandNextMonth ::
  "processed_day list \<Rightarrow> (int \<rightharpoonup> time_row \<times> time_row) \<Rightarrow> int \<Rightarrow> int \<Rightarrow> int
     \<Rightarrow> error + month_row list \<times> month_row list" where
  "expandNextMonth processedWeekData dayOfWeekMap year month daysInMonth =
     forEach (patternRows processedWeekData dayOfWeekMap year month) [1..daysInMonth] ([], [])"

section \<open>extractPrayerTimes\<close>

text \<open>
  What the run leaves on disk, in the order of writing: the raw data, then the two tables
  of the current month, then the two of the next month. A table file is tagged with the
  month index it belongs to; the script names it by the locale's name of that month.
  The log file, the screenshot and the browser are left out.
\<close>

datatype artifact =
    RawData "scraped_day list"
  | AthanCsv int "month_row list"
  | IqamaCsv int "month_row list"

text \<open>Lines 283-321, \<open>generateMonthCSVs\<close>: the athan table and then the iqama table
  of a month are written; the state is the list of files written so far.\<close>

definition generateMonthCSVs ::
  "int \<Rightarrow> int \<Rightarrow> month_row list \<times> month_row list \<Rightarrow> artifact list \<Rightarrow> artifact list" where
  "generateMonthCSVs targetMonth targetYear monthData files =
     files @ [AthanCsv targetMonth (fst monthData), IqamaCsv targetMonth (snd monthData)]"

text \<open>The function from line 148 on, for the rows that the page gave and the reading
  of the clock. The result is the list of files written and either the exception that
  ended the run or the returned pair \<open>{ athanMonth, iqamaMonth }\<close>. Line 157 throws when
  the page gave no row; line 205 reads \<open>processedWeekData[0].athan\<close> for the log, before
  the sort of line 208, and throws when no record was kept.\<close>

definition extractPrayerTimes ::
  "scraped_day list \<Rightarrow> jsdate \<Rightarrow> artifact list \<times> (error + month_row list \<times> month_row list)" where
  "extractPrayerTimes extractedData today =
     (let files0 = [RawData extractedData] in
      if extractedData = [] then (files0, Inl NoPrayerData)
      else case forEach processDay extractedData [] of
        Inl e \<Rightarrow> (files0, Inl e)
      | Inr unsorted \<Rightarrow>
         (case firstRecord unsorted of
            Inl e \<Rightarrow> (files0, Inl e)
          | Inr sample \<Rightarrow>
             (let processedWeekData = sort_key dayNumber unsorted;
                  currentMonth = getMonth today;
                  currentYear = getFullYear today;
                  daysInMonth = getDate (newDate currentYear (currentMonth + 1) 0);
                  dayOfWeekMap = buildDayOfWeekMap processedWeekData
              in case expandCurrentMonth processedWeekData dayOfWeekMap currentYear currentMonth
                        daysInMonth of
                   Inl e \<Rightarrow> (files0, Inl e)
                 | Inr month \<Rightarrow>
                    (let files1 = generateMonthCSVs currentMonth currentYear month files0;
                         nextMonthDate = newDate currentYear (currentMonth + 1) 1;
                         nextMonth = getMonth nextMonthDate;
                         nextYear = getFullYear nextMonthDate;
                         daysInNextMonth = getDate (newDate nextYear (nextMonth + 1) 0)
                     in case expandNextMonth processedWeekData dayOfWeekMap nextYear nextMonth
                               daysInNextMonth of
                          Inl e \<Rightarrow> (files1, Inl e)
                        | Inr next \<Rightarrow>
                            (generateMonthCSVs nextMonth nextYear next files1, Inr month)))))"

section \<open>Notions used to state the properties\<close>

text \<open>The rule for a row of a month table, as the specification words it: the record
  with this day number if there is one, else the pattern entry of the date's weekday,
  else the first record. Nothing is said for an empty set of records.\<close>

definition expanderRule ::
  "processed_day list \<Rightarrow> (int \<rightharpoonup> time_row \<times> time_row) \<Rightarrow> int \<Rightarrow> int \<Rightarrow> int
     \<Rightarrow> time_row \<times> time_row" where
  "expanderRule records pattern year month d =
     (case find (\<lambda>r. dayNumber r = d) records of
        Some r \<Rightarrow> (athan r, iqama r)
      | None \<Rightarrow>
         (case pattern (getDay (newDate year month d)) of
            Some entry \<Rightarrow> entry
          | None \<Rightarrow> (case records of [] \<Rightarrow> ([], []) | r # _ \<Rightarrow> (athan r, iqama r))))"

text \<open>The same rule without its first step.\<close>

definition patternRule ::
  "processed_day list \<Rightarrow> (int \<rightharpoonup> time_row \<times> time_row) \<Rightarrow> int \<Rightarrow> int \<Rightarrow> int
     \<Rightarrow> time_row \<times> time_row" where
  "patternRule records pattern year month d =
     (case pattern (getDay (newDate year month d)) of
        Some entry \<Rightarrow> entry
      | None \<Rightarrow> (case records of [] \<Rightarrow> ([], []) | r # _ \<Rightarrow> (athan r, iqama r)))"

text \<open>The athan and iqama tables with one row for each day from 1 to \<open>n\<close>.\<close>

definition monthTables ::
  "(int \<Rightarrow> time_row \<times> time_row) \<Rightarrow> int \<Rightarrow> month_row list \<times> month_row list" where
  "monthTables rule n =
     (map (\<lambda>d. \<lparr>day = d, times = fst (rule d)\<rparr>) [1..n],
      map (\<lambda>d. \<lparr>day = d, times = snd (rule d)\<rparr>) [1..n])"

text \<open>A processed record stems from a scraped row with a positive day number.\<close>

definition fromRow :: "scraped_day list \<Rightarrow> processed_day \<Rightarrow> bool" where
  "fromRow rows r =
     (\<exists>d\<in>set rows. 0 < dayNumber d \<and> dayNumber r = dayNumber d \<and> dayOfWeek r = dayOfWeek d
        \<and> forEach processPrayer (prayers d) (emptyAthanRow, emptyIqamaRow)
            = Inr (athan r, iqama r))"

text \<open>The year that the Date constructor takes a year argument for.\<close>

definition jsYear :: "int \<Rightarrow> int" where
  "jsYear y = (if 0 \<le> y \<and> y \<le> 99 then 1900 + y else y)"

text \<open>The output shape "HH:MM": two digits, a colon, two digits.\<close>

definition isDigit :: "char \<Rightarrow> bool" where
  "isDigit c = (c \<in> set ''0123456789'')"

definition isHHMM :: "string \<Rightarrow> bool" where
  "isHHMM r =
     (case r of
        [a, b, c, d, e] \<Rightarrow> isDigit a \<and> isDigit b \<and> c = CHR '':'' \<and> isDigit d \<and> isDigit e
      | _ \<Rightarrow> False)"

text \<open>All rows of the table files among the files written.\<close>

fun tableRows :: "artifact \<Rightarrow> month_row list" where
  "tableRows (RawData rows) = []"
| "tableRows (AthanCsv m table) = table"
| "tableRows (IqamaCsv m table) = table"

definition writtenRows :: "artifact list \<Rightarrow> month_row list" where
  "writtenRows files = concat (map tableRows files)"

subsection \<open>A sample\<close>

text \<open>Two rows of the week of Monday 1 June 2026, a row whose date could not be read,
  and the records that the two rows are processed into.\<close>

definition juneWeek :: "scraped_day list" where
  "juneWeek =
     [\<lparr>dayNumber = 1, dayOfWeek = 1, isToday = True, date = ''June 2026 1 Mon'',
       prayers = [(''Fajr'', \<lparr>start = ''5:30'', iqamah = ''5:45''\<rparr>),
                  (''Dhuhr'', \<lparr>start = ''1:15'', iqamah = ''1:30''\<rparr>),
                  (''Magrib'', \<lparr>start = ''9:05'', iqamah = ''9:10''\<rparr>)]\<rparr>,
      \<lparr>dayNumber = 3, dayOfWeek = 3, isToday = False, date = ''June 2026 3 Wed'',
       prayers = [(''Fajr'', \<lparr>start = ''5:28'', iqamah = ''5:45''\<rparr>),
                  (''Dhuhr'', \<lparr>start = ''1:15'', iqamah = ''1:30''\<rparr>),
                  (''Magrib'', \<lparr>start = ''9:06'', iqamah = ''9:11''\<rparr>)]\<rparr>]"

definition unreadRow :: scraped_day where
  "unreadRow =
     \<lparr>dayNumber = 0, dayOfWeek = - 1, isToday = False, date = ''June 2026 '', prayers = []\<rparr>"

definition juneRecords :: "processed_day list" where
  "juneRecords =
     [\<lparr>dayNumber = 1, dayOfWeek = 1, isToday = True,
       athan = [(''Fajr'', ''05:30''), (''Sunrise'', []), (''Dhuhr'', ''13:15''), (''Asr'', []),
                (''Maghrib'', ''21:05''), (''Isha'', [])],
       iqama = [(''Fajr'', ''05:45''), (''Dhuhr'', ''13:30''), (''Asr'', []),
                (''Maghrib'', ''21:10''), (''Isha'', [])]\<rparr>,
      \<lparr>dayNumber = 3, dayOfWeek = 3, isToday = False,
       athan = [(''Fajr'', ''05:28''), (''Sunrise'', []), (''Dhuhr'', ''13:15''), (''Asr'', []),
                (''Maghrib'', ''21:06''), (''Isha'', [])],
       iqama = [(''Fajr'', ''05:45''), (''Dhuhr'', ''13:30''), (''Asr'', []),
                (''Maghrib'', ''21:11''), (''Isha'', [])]\<rparr>]"

definition juneFirst :: jsdate where
  "juneFirst = \<lparr>fullYear = 2026, monthIndex = 5, dayOfMonth = 1, msOfDay = 0\<rparr>"


section \<open>The host of a run\<close>

text \<open>
  Beyond the page, the script reads three things of its host: the clock, through
  \<open>new Date()\<close>; the time zone, in which \<open>new Date(y, m, d)\<close> is local midnight and
  in which every getter reads a Date; and the locale, which names the month in the names
  of the table files. The definitions above read dates in a host without a time zone and
  tag a file by its month index. The definitions of this section repeat lines 211-382
  with the three as inputs.

  A time zone gives the offset of local time in milliseconds, once for a time value (the
  abstract operation LocalTime adds it) and once for a local time (the abstract operation
  UTC subtracts it; where a local time is skipped or repeated by a transition this is the
  offset before the transition). The range check of TimeClip is left out.
\<close>

record timezone =
  offsetAtUTC :: "int \<Rightarrow> int"
  offsetAtLocal :: "int \<Rightarrow> int"

definition msPerDay :: int where
  "msPerDay = 86400000"

text \<open>Day of ECMAScript for a calendar reading: its day number from 1 January 1970.\<close>

definition dayNumberOf :: "jsdate \<Rightarrow> int" where
  "dayNumberOf t =
     dayFromYear (fullYear t) + daysBeforeMonth (fullYear t) (monthIndex t) + dayOfMonth t - 1"

text \<open>How far the local reading of the time value stored for the local time \<open>t\<close> lies
  after \<open>t\<close>: LocalTime(UTC(t)) - t.\<close>

definition localShift :: "timezone \<Rightarrow> int \<Rightarrow> int" where
  "localShift z t = (let tv = t - offsetAtLocal z t in tv + offsetAtUTC z tv - t)"

text \<open>\<open>new Date(y, m, d)\<close> in a time zone, as the local reading of the Date made: the
  time value of local midnight is stored, and the getters read it back in local time.\<close>

definition newDateIn :: "timezone \<Rightarrow> int \<Rightarrow> int \<Rightarrow> int \<Rightarrow> jsdate" where
  "newDateIn z y m d =
     (let c = newDate y m d;
          shift = localShift z (dayNumberOf c * msPerDay)
      in (normDay (fullYear c) (monthIndex c) (dayOfMonth c + shift div msPerDay))
           \<lparr>msOfDay := shift mod msPerDay\<rparr>)"









text \<open>A time zone keeps the day when the Date made for a local midnight reads back as
  a time of the same day. A zone with a fixed offset does, and so does a zone whose
  clocks go forward at midnight; a zone that leaves a whole day out does not.\<close>

definition keepsDay :: "timezone \<Rightarrow> bool" where
  "keepsDay z = (\<forall>t. 0 \<le> localShift z t \<and> localShift z t < msPerDay)"



subsection \<open>Two hosts\<close>



definition apia2011 :: timezone where
  "apia2011 = \<lparr>offsetAtUTC = (\<lambda>t. 50400000), offsetAtLocal = (\<lambda>t. - 36000000)\<rparr>"





section \<open>Facts about the string and number primitives\<close>

lemma split_str_not_Nil: "split_str c s \<noteq> []"
  by (induction s) (auto split: list.splits)

lemma split_str_first: "\<exists>segs. split_str c s = takeWhile (\<lambda>x. x \<noteq> c) s # segs"
  by (induction s) (auto split: list.splits)

lemma index_split_str_0: "index (split_str c s) 0 = JStr (takeWhile (\<lambda>x. x \<noteq> c) s)"
proof -
  obtain segs where "split_str c s = takeWhile (\<lambda>x. x \<noteq> c) s # segs"
    using split_str_first by blast
  then show ?thesis by (simp add: index_def)
qed

lemma firstTime_eq:
  "firstTime s = Inr (if CHR '','' \<in> set s then trim (takeWhile (\<lambda>x. x \<noteq> CHR '','') s) else s)"
  by (simp add: firstTime_def index_split_str_0 js_trim_def)

lemma trim_Nil_iff: "trim s = [] \<longleftrightarrow> (\<forall>c\<in>set s. isWhiteSpace c)"
proof
  assume "trim s = []"
  then have a: "\<forall>x\<in>set (dropWhile isWhiteSpace s). isWhiteSpace x"
    by (simp add: trim_def dropWhile_eq_Nil_conv)
  have "dropWhile isWhiteSpace s = []"
  proof (rule ccontr)
    assume n: "dropWhile isWhiteSpace s \<noteq> []"
    then have "\<not> isWhiteSpace (hd (dropWhile isWhiteSpace s))"
      by (rule hd_dropWhile)
    moreover have "hd (dropWhile isWhiteSpace s) \<in> set (dropWhile isWhiteSpace s)"
      using n by simp
    ultimately show False using a by blast
  qed
  then show "\<forall>c\<in>set s. isWhiteSpace c"
    by (simp add: dropWhile_eq_Nil_conv)
next
  assume "\<forall>c\<in>set s. isWhiteSpace c"
  then have d: "dropWhile isWhiteSpace s = []"
    by (simp add: dropWhile_eq_Nil_conv)
  show "trim s = []"
    by (simp only: trim_def d rev.simps dropWhile.simps)
qed

lemma convertTo24Hour_JStr:
  "convertTo24Hour (JStr s) p =
     Inr (if trim s = [] then []
          else convertParsed
                 (if CHR '','' \<in> set s then trim (takeWhile (\<lambda>x. x \<noteq> CHR '','') s) else s) p)"
  by (cases "s = []") (simp_all add: convertTo24Hour_def falsy_def js_trim_def ToString_def firstTime_eq trim_def)

lemma padStart_long: "n \<le> length s \<Longrightarrow> padStart n c s = s"
  by (simp add: padStart_def)

lemma adjustHours_NaN: "adjustHours p NaN = NaN"
  by (simp add: adjustHours_def plus12_def)

lemma formatTime_NaN:
  "h = NaN \<or> m = NaN \<Longrightarrow> \<exists>u v. formatTime h m = u @ ''NaN'' @ v"
proof (cases "h = NaN")
  case True
  then have "formatTime h m = [] @ ''NaN'' @ ('':'' @ padStart 2 CHR ''0'' (numToString m))"
    by (simp add: formatTime_def numToString_def padStart_def)
  then show ?thesis by blast
next
  case False
  assume "h = NaN \<or> m = NaN"
  with False have "m = NaN" by simp
  then have "formatTime h m = (padStart 2 CHR ''0'' (numToString h) @ '':'') @ ''NaN'' @ []"
    by (simp add: formatTime_def numToString_def padStart_def)
  then show ?thesis by blast
qed

lemma adjustHours_morning:
  "p = ''Fajr'' \<or> p = ''Sunrise'' \<Longrightarrow> adjustHours p (Num h) = Num (if h = 12 then 0 else h)"
  by (auto simp: adjustHours_def)

lemma adjustHours_evening:
  "p = ''Dhuhr'' \<or> p = ''Asr'' \<or> p = ''Magrib'' \<or> p = ''Isha''
     \<Longrightarrow> adjustHours p (Num h) = Num (if h = 12 then 12 else h + 12)"
  by (auto simp: adjustHours_def plus12_def)

lemma adjustHours_other:
  "p \<notin> {''Fajr'', ''Sunrise'', ''Dhuhr'', ''Asr'', ''Magrib'', ''Isha''} \<Longrightarrow> adjustHours p h = h"
  by (auto simp: adjustHours_def)

lemma isHHMM_no_N: "isHHMM r \<Longrightarrow> CHR ''N'' \<notin> set r"
  by (auto simp: isHHMM_def isDigit_def split: list.splits)

text \<open>Reading back the decimal digits of a number.\<close>

lemma digitOf_digit_char: "d < 10 \<Longrightarrow> digitOf 10 (digit_char d) = Some d"
proof -
  assume "d < 10"
  then have "d \<in> {0, 1, 2, 3, 4, 5, 6, 7, 8, 9}" by auto
  then show ?thesis
    by (auto simp: digitOf_def digit_char_def)
qed

lemma digit_char_plain:
  "d < 10 \<Longrightarrow> \<not> isWhiteSpace (digit_char d) \<and> digit_char d \<noteq> CHR ''-'' \<and> digit_char d \<noteq> CHR ''+''
     \<and> digit_char d \<noteq> CHR ''x'' \<and> digit_char d \<noteq> CHR ''X'' \<and> digit_char d \<noteq> CHR '':''
     \<and> digit_char d \<noteq> CHR '',''"
proof -
  assume "d < 10"
  then have "d \<in> {0, 1, 2, 3, 4, 5, 6, 7, 8, 9}" by auto
  then show ?thesis
    by (auto simp: isWhiteSpace_def digit_char_def)
qed

lemma digits_chars: "c \<in> set (digits n) \<Longrightarrow> \<exists>d<10. c = digit_char d"
proof (induction n rule: digits.induct)
  case (1 n)
  show ?case
  proof (cases "n < 10")
    case True
    then show ?thesis using "1.prems" by (subst (asm) digits.simps) auto
  next
    case False
    then have "c \<in> set (digits (n div 10)) \<or> c = digit_char (n mod 10)"
      using "1.prems" by (subst (asm) digits.simps) auto
    then show ?thesis
    proof
      assume "c \<in> set (digits (n div 10))"
      then show ?thesis using "1.IH" False by simp
    next
      assume "c = digit_char (n mod 10)"
      moreover have "n mod 10 < 10" by simp
      ultimately show ?thesis by blast
    qed
  qed
qed

lemma digits_plain:
  assumes "x \<in> set (digits n)"
  shows "\<not> isWhiteSpace x \<and> x \<noteq> CHR ''-'' \<and> x \<noteq> CHR ''+''
     \<and> x \<noteq> CHR ''x'' \<and> x \<noteq> CHR ''X'' \<and> x \<noteq> CHR '':'' \<and> x \<noteq> CHR '',''"
proof -
  obtain d where "d < 10" and "x = digit_char d"
    using digits_chars [OF assms] by blast
  then show ?thesis using digit_char_plain [of d] by simp
qed

lemma digits_not_Nil: "digits n \<noteq> []"
  by (subst digits.simps) simp

lemma parseDigits_append:
  "(\<forall>c\<in>set xs. digitOf r c \<noteq> None) \<Longrightarrow>
     parseDigits r (xs @ ys) acc = parseDigits r ys (if xs = [] then acc else parseDigits r xs acc)"
proof (induction xs arbitrary: acc)
  case Nil
  show ?case by simp
next
  case (Cons x xs)
  then obtain d where d: "digitOf r x = Some d" by auto
  show ?case
  proof (cases "xs = []")
    case True
    then show ?thesis using d by simp
  next
    case False
    then show ?thesis using d Cons by simp
  qed
qed

lemma parseDigits_digits: "parseDigits 10 (digits n) None = Some n"
proof (induction n rule: digits.induct)
  case (1 n)
  show ?case
  proof (cases "n < 10")
    case True
    then show ?thesis by (subst digits.simps) (simp add: digitOf_digit_char)
  next
    case False
    have a: "\<forall>c\<in>set (digits (n div 10)). digitOf 10 c \<noteq> None"
      using digits_chars digitOf_digit_char by fastforce
    have "parseDigits 10 (digits n) None
            = parseDigits 10 (digits (n div 10) @ [digit_char (n mod 10)]) None"
      using False by (subst digits.simps) simp
    also have "\<dots> = parseDigits 10 [digit_char (n mod 10)] (parseDigits 10 (digits (n div 10)) None)"
      using parseDigits_append [OF a] by (simp add: digits_not_Nil)
    also have "\<dots> = parseDigits 10 [digit_char (n mod 10)] (Some (n div 10))"
      using "1.IH" False by simp
    also have "\<dots> = Some n"
      by (simp add: digitOf_digit_char)
    finally show ?thesis .
  qed
qed

lemma parseInt_digits: "parseInt (JStr (digits n)) = Num (int n)"
proof -
  obtain c cs where s: "digits n = c # cs" using digits_not_Nil by (cases "digits n") auto
  have c: "\<not> isWhiteSpace c \<and> c \<noteq> CHR ''-'' \<and> c \<noteq> CHR ''+''"
    using digits_plain [of c n] s by simp
  have S: "dropWhile isWhiteSpace (digits n) = digits n"
    using c s by simp
  have f1: "\<not> (digits n \<noteq> [] \<and> hd (digits n) = CHR ''-'')"
    using c s by simp
  have f2: "\<not> (digits n \<noteq> [] \<and> (hd (digits n) = CHR ''+'' \<or> hd (digits n) = CHR ''-''))"
    using c s by simp
  have f3: "\<not> (take 2 (digits n) = ''0x'' \<or> take 2 (digits n) = ''0X'')"
  proof (cases cs)
    case Nil
    then show ?thesis using s by simp
  next
    case (Cons y ys)
    then have "y \<noteq> CHR ''x'' \<and> y \<noteq> CHR ''X''" using digits_plain [of y n] s by simp
    then show ?thesis using Cons s by simp
  qed
  show ?thesis
    by (simp only: parseInt_def Let_def ToString_def jsval.case S f1 f2 f3 if_False
          parseDigits_digits option.case) simp
qed

text \<open>A string that starts with the decimal digits of \<open>h\<close> and a colon, such as
  "5:30", is not blank, is read as it stands when it has no comma, and has the parsed
  hour \<open>h\<close>.\<close>

lemma clock_string_hours:
  "parseHours (digits h @ CHR '':'' # rest) = Num (int h)"
proof -
  have "\<And>x. x \<in> set (digits h) \<Longrightarrow> x \<noteq> CHR '':''"
    using digits_plain by blast
  then have "takeWhile (\<lambda>x. x \<noteq> CHR '':'') (digits h @ CHR '':'' # rest) = digits h"
    by simp
  then show ?thesis by (simp add: parseHours_def index_split_str_0 parseInt_digits)
qed

lemma clock_string_read:
  assumes "CHR '','' \<notin> set rest"
  shows "trim (digits h @ CHR '':'' # rest) \<noteq> []
       \<and> firstTime (digits h @ CHR '':'' # rest) = Inr (digits h @ CHR '':'' # rest)"
proof -
  have "CHR '','' \<notin> set (digits h)" using digits_plain [of "CHR '',''" h] by blast
  moreover have "\<not> isWhiteSpace CHR '':''" by (simp add: isWhiteSpace_def)
  ultimately show ?thesis using assms by (auto simp: firstTime_eq trim_Nil_iff)
qed

section \<open>Facts about the processing and the expansion\<close>

lemma processPrayer_ok:
  "\<exists>a' i'. processPrayer e (a, i) = Inr (a', i') \<and> map fst a' = map fst a \<and> map fst i' = map fst i"
  by (simp add: processPrayer_def convertTo24Hour_JStr Let_def hasOwnProperty_def update_keys)

lemma forEach_processPrayer_ok:
  "\<exists>a' i'. forEach processPrayer ps (a, i) = Inr (a', i')
            \<and> map fst a' = map fst a \<and> map fst i' = map fst i"
proof (induction ps arbitrary: a i)
  case Nil
  show ?case by simp
next
  case (Cons e ps)
  obtain a1 i1 where s: "processPrayer e (a, i) = Inr (a1, i1)"
    and k: "map fst a1 = map fst a" "map fst i1 = map fst i"
    using processPrayer_ok by blast
  obtain a2 i2 where r: "forEach processPrayer ps (a1, i1) = Inr (a2, i2)"
    and k2: "map fst a2 = map fst a1" "map fst i2 = map fst i1"
    using Cons.IH by blast
  show ?case using s r k k2 by simp
qed

lemma processDay_skip: "dayNumber d \<le> 0 \<Longrightarrow> processDay d acc = Inr acc"
  by (simp add: processDay_def)

lemma processDay_keep:
  assumes "0 < dayNumber d"
  shows "\<exists>a i. forEach processPrayer (prayers d) (emptyAthanRow, emptyIqamaRow) = Inr (a, i)
           \<and> processDay d acc = Inr (acc @ [\<lparr>dayNumber = dayNumber d, dayOfWeek = dayOfWeek d,
                 isToday = isToday d, athan = a, iqama = i\<rparr>])"
proof -
  obtain a i where "forEach processPrayer (prayers d) (emptyAthanRow, emptyIqamaRow) = Inr (a, i)"
    using forEach_processPrayer_ok by blast
  then show ?thesis using assms by (simp add: processDay_def)
qed

lemma forEach_processDay:
  "\<exists>recs. forEach processDay rows acc = Inr (acc @ recs)
     \<and> map dayNumber recs = map dayNumber (filter (\<lambda>d. 0 < dayNumber d) rows)
     \<and> (\<forall>r\<in>set recs. fromRow rows r)"
proof (induction rows arbitrary: acc)
  case Nil
  show ?case by simp
next
  case (Cons d rows)
  show ?case
  proof (cases "0 < dayNumber d")
    case False
    then have s: "processDay d acc = Inr acc" by (simp add: processDay_skip)
    obtain recs where r: "forEach processDay rows acc = Inr (acc @ recs)"
      and m: "map dayNumber recs = map dayNumber (filter (\<lambda>d. 0 < dayNumber d) rows)"
      and f: "\<forall>r\<in>set recs. fromRow rows r"
      using Cons.IH by blast
    have "\<forall>r\<in>set recs. fromRow (d # rows) r"
      using f by (auto simp: fromRow_def)
    then show ?thesis using s r m False by auto
  next
    case True
    obtain a i where p: "forEach processPrayer (prayers d) (emptyAthanRow, emptyIqamaRow) = Inr (a, i)"
      and s: "processDay d acc = Inr (acc @ [\<lparr>dayNumber = dayNumber d, dayOfWeek = dayOfWeek d,
                 isToday = isToday d, athan = a, iqama = i\<rparr>])"
      using processDay_keep [OF True] by blast
    let ?r = "\<lparr>dayNumber = dayNumber d, dayOfWeek = dayOfWeek d,
                 isToday = isToday d, athan = a, iqama = i\<rparr>"
    obtain recs where r: "forEach processDay rows (acc @ [?r]) = Inr ((acc @ [?r]) @ recs)"
      and m: "map dayNumber recs = map dayNumber (filter (\<lambda>d. 0 < dayNumber d) rows)"
      and f: "\<forall>r\<in>set recs. fromRow rows r"
      using Cons.IH by blast
    have f1: "fromRow (d # rows) ?r"
      using True p by (simp add: fromRow_def)
    have f2: "\<forall>r\<in>set recs. fromRow (d # rows) r"
      using f by (auto simp: fromRow_def)
    have "forEach processDay (d # rows) acc = Inr (acc @ (?r # recs))"
      using s r by simp
    moreover have "map dayNumber (?r # recs) = map dayNumber (filter (\<lambda>d. 0 < dayNumber d) (d # rows))"
      using m True by simp
    moreover have "\<forall>r\<in>set (?r # recs). fromRow (d # rows) r"
      using f1 f2 by simp
    ultimately show ?thesis by blast
  qed
qed

lemma fromRow_keys:
  assumes "fromRow rows r"
  shows "map fst (athan r) = map fst emptyAthanRow \<and> map fst (iqama r) = map fst emptyIqamaRow"
proof -
  obtain d :: scraped_day where p: "forEach processPrayer (prayers d) (emptyAthanRow, emptyIqamaRow) = Inr (athan r, iqama r)"
    using assms by (auto simp: fromRow_def)
  obtain a i where q: "forEach processPrayer (prayers d) (emptyAthanRow, emptyIqamaRow) = Inr (a, i)"
    and k: "map fst a = map fst emptyAthanRow" "map fst i = map fst emptyIqamaRow"
    using forEach_processPrayer_ok by blast
  from p q have "a = athan r" "i = iqama r" by simp_all
  with k show ?thesis by simp
qed

lemma forEach_total:
  assumes "\<And>x s. f x s = Inr (g x s)"
  shows "forEach f xs s = Inr (fold g xs s)"
  by (induction xs arbitrary: s) (simp_all add: assms)

lemma fold_pushRows:
  "fold (\<lambda>d. pushRows d (fst (rule d)) (snd (rule d))) ds tables =
     (fst tables @ map (\<lambda>d. \<lparr>day = d, times = fst (rule d)\<rparr>) ds,
      snd tables @ map (\<lambda>d. \<lparr>day = d, times = snd (rule d)\<rparr>) ds)"
  by (induction ds arbitrary: tables) (simp_all add: pushRows_def)

lemma patternRows_eq:
  "records \<noteq> [] \<Longrightarrow> patternRows records pattern y m d tables =
     Inr (pushRows d (fst (patternRule records pattern y m d)) (snd (patternRule records pattern y m d)) tables)"
  by (cases records) (simp_all add: patternRows_def patternRule_def firstRecord_def split: option.splits)

lemma currentMonthDay_eq:
  "records \<noteq> [] \<Longrightarrow> currentMonthDay records pattern y m d tables =
     Inr (pushRows d (fst (expanderRule records pattern y m d)) (snd (expanderRule records pattern y m d)) tables)"
  by (cases records)
     (simp_all add: currentMonthDay_def expanderRule_def patternRows_def firstRecord_def split: option.splits)

lemma expandCurrentMonth_eq:
  assumes "records \<noteq> []"
  shows "expandCurrentMonth records pattern y m n = Inr (monthTables (expanderRule records pattern y m) n)"
  unfolding expandCurrentMonth_def monthTables_def
  by (simp add: forEach_total [where g = "\<lambda>d. pushRows d (fst (expanderRule records pattern y m d)) (snd (expanderRule records pattern y m d))", OF currentMonthDay_eq [OF assms]] fold_pushRows)

lemma expandNextMonth_eq:
  assumes "records \<noteq> []"
  shows "expandNextMonth records pattern y m n = Inr (monthTables (patternRule records pattern y m) n)"
  unfolding expandNextMonth_def monthTables_def
  by (simp add: forEach_total [where g = "\<lambda>d. pushRows d (fst (patternRule records pattern y m d)) (snd (patternRule records pattern y m d))", OF patternRows_eq [OF assms]] fold_pushRows)

lemma monthLength_bounds: "28 \<le> monthLength y m \<and> monthLength y m \<le> 31"
  by (simp add: monthLength_def)

lemma normDay_in_range:
  "1 \<le> d \<Longrightarrow> d \<le> monthLength y m \<Longrightarrow> normDay y m d = \<lparr>fullYear = y, monthIndex = m, dayOfMonth = d, msOfDay = 0\<rparr>"
  by (subst normDay.simps) simp

lemma normDay_zero:
  "normDay y m 0 = \<lparr>fullYear = prevYear y m, monthIndex = prevMonth m,
      dayOfMonth = monthLength (prevYear y m) (prevMonth m), msOfDay = 0\<rparr>"
proof -
  have "normDay y m 0 = normDay (prevYear y m) (prevMonth m) (monthLength (prevYear y m) (prevMonth m))"
    by (subst normDay.simps) simp
  also have "\<dots> = \<lparr>fullYear = prevYear y m, monthIndex = prevMonth m,
      dayOfMonth = monthLength (prevYear y m) (prevMonth m), msOfDay = 0\<rparr>"
    using monthLength_bounds [of "prevYear y m" "prevMonth m"] by (intro normDay_in_range) auto
  finally show ?thesis .
qed

lemma last_day_of_month:
  assumes "0 \<le> m" "m \<le> 11"
  shows "getDate (newDate y (m + 1) 0) = monthLength (jsYear y) m"
proof (cases "m = 11")
  case True
  then show ?thesis
    by (simp add: newDate_def getDate_def normDay_zero prevYear_def prevMonth_def jsYear_def Let_def)
next
  case False
  with assms have "(m + 1) div 12 = 0" "(m + 1) mod 12 = m + 1" by simp_all
  then show ?thesis using assms
    by (simp add: newDate_def getDate_def normDay_zero prevYear_def prevMonth_def jsYear_def Let_def)
qed

text \<open>The calendar on some known dates: 1 January 1970 was a Thursday, 29 February 2000
  a Tuesday, 1 June 2026 is a Monday and 1 July 2026 a Wednesday; a year has 365 or 366
  days.\<close>

lemma getDay_known:
  "getDay (newDate 1970 0 1) = 4 \<and> getDay (newDate 2000 1 29) = 2
     \<and> getDay (newDate 2026 5 1) = 1 \<and> getDay (newDate 2026 6 1) = 3"
  by code_simp

lemma upto_0_11: "[0..(11::int)] = [0, 1, 2, 3, 4, 5, 6, 7, 8, 9, 10, 11]"
  by code_simp

lemma daysBeforeMonth_12: "daysBeforeMonth y 12 = (if isLeap y then 366 else 365)"
  by (simp add: daysBeforeMonth_def monthLength_def upto_0_11)

lemma daysBeforeMonth_Suc:
  "0 \<le> m \<Longrightarrow> daysBeforeMonth y (m + 1) = daysBeforeMonth y m + monthLength y m"
  by (simp add: daysBeforeMonth_def upto_rec2)

lemma buildDayOfWeekMap_from:
  "fold dayOfWeekMapStep recs m w = Some e \<Longrightarrow>
     m w = Some e \<or> (\<exists>r\<in>set recs. dayOfWeek r = w \<and> e = (athan r, iqama r))"
proof (induction recs arbitrary: m)
  case Nil
  then show ?case by simp
next
  case (Cons r recs)
  from Cons.IH [OF Cons.prems [simplified]]
  show ?case by (auto simp: dayOfWeekMapStep_def split: if_splits)
qed

lemma find_in_set: "find P xs = Some x \<Longrightarrow> x \<in> set xs"
  by (induction xs) (auto split: if_splits)

lemma patternRule_from_record:
  assumes "records \<noteq> []"
  shows "\<exists>r\<in>set records. patternRule records (buildDayOfWeekMap records) y m d = (athan r, iqama r)"
proof (cases "buildDayOfWeekMap records (getDay (newDate y m d))")
  case None
  then show ?thesis using assms
    by (cases records) (simp_all add: patternRule_def)
next
  case (Some e)
  then have "fold dayOfWeekMapStep records Map.empty (getDay (newDate y m d)) = Some e"
    by (simp add: buildDayOfWeekMap_def)
  then obtain r where "r \<in> set records" "e = (athan r, iqama r)"
    using buildDayOfWeekMap_from by fastforce
  then show ?thesis using Some by (auto simp: patternRule_def)
qed

lemma expanderRule_from_record:
  assumes "records \<noteq> []"
  shows "\<exists>r\<in>set records. expanderRule records (buildDayOfWeekMap records) y m d = (athan r, iqama r)"
proof (cases "find (\<lambda>r. dayNumber r = d) records")
  case None
  then have "expanderRule records (buildDayOfWeekMap records) y m d
      = patternRule records (buildDayOfWeekMap records) y m d"
    by (simp add: expanderRule_def patternRule_def)
  then show ?thesis using patternRule_from_record [OF assms] by simp
next
  case (Some r)
  then have "r \<in> set records" by (rule find_in_set)
  then show ?thesis using Some by (auto simp: expanderRule_def)
qed

lemma sort_key_not_Nil: "xs \<noteq> [] \<Longrightarrow> sort_key f xs \<noteq> []"
  by (metis length_0_conv length_sort)

lemma extractPrayerTimes_ok:
  assumes "forEach processDay rows [] = Inr recs" and "recs \<noteq> []"
    and "byDay = sort_key dayNumber recs" and "pat = buildDayOfWeekMap byDay"
    and "cur = monthTables (expanderRule byDay pat (getFullYear today) (getMonth today))
                 (getDate (newDate (getFullYear today) (getMonth today + 1) 0))"
    and "nd = newDate (getFullYear today) (getMonth today + 1) 1"
    and "nxt = monthTables (patternRule byDay pat (getFullYear nd) (getMonth nd))
                 (getDate (newDate (getFullYear nd) (getMonth nd + 1) 0))"
  shows "extractPrayerTimes rows today =
           ([RawData rows,
             AthanCsv (getMonth today) (fst cur), IqamaCsv (getMonth today) (snd cur),
             AthanCsv (getMonth nd) (fst nxt), IqamaCsv (getMonth nd) (snd nxt)],
            Inr cur)"
proof -
  have r: "rows \<noteq> []" using assms(1,2) by auto
  obtain r0 rest where c: "recs = r0 # rest" using assms(2) by (cases recs) auto
  have f: "firstRecord recs = Inr r0" by (simp add: firstRecord_def c)
  have s: "byDay \<noteq> []" using assms(2,3) by (simp add: sort_key_not_Nil)
  show ?thesis
    unfolding extractPrayerTimes_def
    using r assms(1) f
    by (simp add: Let_def assms(3-7) [symmetric] expandCurrentMonth_eq [OF s]
        expandNextMonth_eq [OF s] generateMonthCSVs_def)
qed

lemma monthTables_rows:
  assumes "row \<in> set (fst (monthTables rule n)) \<or> row \<in> set (snd (monthTables rule n))"
  shows "\<exists>d. times row = fst (rule d) \<or> times row = snd (rule d)"
  using assms by (auto simp: monthTables_def)

lemma monthTables_keys:
  assumes "\<And>d. map fst (fst (rule d)) = ka \<and> map fst (snd (rule d)) = ki"
    and "row \<in> set (fst (monthTables rule n)) \<or> row \<in> set (snd (monthTables rule n))"
  shows "map fst (times row) = ka \<or> map fst (times row) = ki"
proof -
  obtain d where "times row = fst (rule d) \<or> times row = snd (rule d)"
    using monthTables_rows [OF assms(2)] by blast
  then show ?thesis using assms(1) [of d] by auto
qed

lemma written_rows_keys:
  assumes "row \<in> set (writtenRows (fst (extractPrayerTimes rows today)))"
  shows "map fst (times row) = map fst emptyAthanRow \<or> map fst (times row) = map fst emptyIqamaRow"
proof -
  obtain recs where p: "forEach processDay rows [] = Inr recs"
    and fr: "\<forall>r\<in>set recs. fromRow rows r"
    using forEach_processDay [of rows "[]"] by auto
  show ?thesis
  proof (cases "recs = []")
    case True
    then have "firstRecord recs = Inl TypeError" by (simp add: firstRecord_def)
    then have "fst (extractPrayerTimes rows today) = [RawData rows]"
      using p by (simp add: extractPrayerTimes_def Let_def)
    then show ?thesis using assms by (simp add: writtenRows_def)
  next
    case False
    define byDay where "byDay = sort_key dayNumber recs"
    define pat where "pat = buildDayOfWeekMap byDay"
    define cur where "cur = monthTables (expanderRule byDay pat (getFullYear today) (getMonth today))
                 (getDate (newDate (getFullYear today) (getMonth today + 1) 0))"
    define nd where "nd = newDate (getFullYear today) (getMonth today + 1) 1"
    define nxt where "nxt = monthTables (patternRule byDay pat (getFullYear nd) (getMonth nd))
                 (getDate (newDate (getFullYear nd) (getMonth nd + 1) 0))"
    have e: "extractPrayerTimes rows today =
           ([RawData rows,
             AthanCsv (getMonth today) (fst cur), IqamaCsv (getMonth today) (snd cur),
             AthanCsv (getMonth nd) (fst nxt), IqamaCsv (getMonth nd) (snd nxt)],
            Inr cur)"
      using extractPrayerTimes_ok [OF p False byDay_def pat_def cur_def nd_def nxt_def] .
    have s: "byDay \<noteq> []" using False by (simp add: byDay_def sort_key_not_Nil)
    have k: "\<forall>r\<in>set byDay. map fst (athan r) = map fst emptyAthanRow
                \<and> map fst (iqama r) = map fst emptyIqamaRow"
      using fr fromRow_keys by (auto simp: byDay_def)
    have k1: "map fst (fst (expanderRule byDay pat y m d)) = map fst emptyAthanRow
                \<and> map fst (snd (expanderRule byDay pat y m d)) = map fst emptyIqamaRow" for y m d
      using expanderRule_from_record [OF s, of y m d] k by (auto simp: pat_def)
    have k2: "map fst (fst (patternRule byDay pat y m d)) = map fst emptyAthanRow
                \<and> map fst (snd (patternRule byDay pat y m d)) = map fst emptyIqamaRow" for y m d
      using patternRule_from_record [OF s, of y m d] k by (auto simp: pat_def)
    have "(row \<in> set (fst cur) \<or> row \<in> set (snd cur)) \<or> (row \<in> set (fst nxt) \<or> row \<in> set (snd nxt))"
      using assms by (auto simp: e writtenRows_def)
    then show ?thesis
    proof
      assume "row \<in> set (fst cur) \<or> row \<in> set (snd cur)"
      then show ?thesis unfolding cur_def
        by (rule monthTables_keys [where rule = "expanderRule byDay pat (getFullYear today) (getMonth today)", OF k1])
    next
      assume "row \<in> set (fst nxt) \<or> row \<in> set (snd nxt)"
      then show ?thesis unfolding nxt_def
        by (rule monthTables_keys [where rule = "patternRule byDay pat (getFullYear nd) (getMonth nd)", OF k2])
    qed
  qed
qed

lemma returned_rows_written:
  assumes "snd (extractPrayerTimes rows today) = Inr m" and "row \<in> set (fst m @ snd m)"
  shows "row \<in> set (writtenRows (fst (extractPrayerTimes rows today)))"
proof -
  obtain recs where p: "forEach processDay rows [] = Inr recs"
    using forEach_processDay [of rows "[]"] by auto
  have n: "recs \<noteq> []"
  proof
    assume "recs = []"
    then have "firstRecord recs = Inl TypeError" by (simp add: firstRecord_def)
    then have "\<exists>e. snd (extractPrayerTimes rows today) = Inl e"
      using p by (simp add: extractPrayerTimes_def Let_def)
    then show False using assms(1) by auto
  qed
  show ?thesis
    using assms extractPrayerTimes_ok [OF p n refl refl refl refl refl, of today]
    by (auto simp: writtenRows_def)
qed

lemma forEach_processDay_skip:
  "dayNumber r \<le> 0 \<Longrightarrow> forEach processDay (xs @ r # ys) acc = forEach processDay (xs @ ys) acc"
  by (induction xs arbitrary: acc) (simp_all add: processDay_skip split: sum.splits)

section \<open>Facts about the host\<close>












text \<open>Clocks that go forward by \<open>g\<close> at the instant \<open>T\<close>, and clocks that go back by
  \<open>g\<close>: both zones keep the day, whatever the time of the change.\<close>

lemma spring_forward_keepsDay:
  assumes "0 \<le> g" and "g < msPerDay"
  shows "keepsDay \<lparr>offsetAtUTC = (\<lambda>tv. if tv < T then a else a + g),
                    offsetAtLocal = (\<lambda>t. if t < T + a + g then a else a + g)\<rparr>"
  using assms by (simp add: keepsDay_def localShift_def Let_def)

lemma fall_back_keepsDay:
  assumes "0 \<le> g"
  shows "keepsDay \<lparr>offsetAtUTC = (\<lambda>tv. if tv < T then a + g else a),
                    offsetAtLocal = (\<lambda>t. if t < T + a + g then a + g else a)\<rparr>"
  using assms by (simp add: keepsDay_def localShift_def Let_def msPerDay_def)

text \<open>The time zone is read: in Apia, \<open>new Date(2011, 11, 30)\<close> is a Saturday, the 31st,
  where the calendar alone makes 30 December 2011 a Friday.\<close>

lemma newDateIn_reads_zone:
  "\<not> keepsDay apia2011
     \<and> getDay (newDateIn apia2011 2011 11 30) = 6 \<and> getDate (newDateIn apia2011 2011 11 30) = 31
     \<and> getDay (newDate 2011 11 30) = 5 \<and> getDate (newDate 2011 11 30) = 30"
proof -
  have "localShift apia2011 0 = msPerDay"
    by (simp add: localShift_def apia2011_def msPerDay_def)
  then have "\<not> localShift apia2011 0 < msPerDay" by simp
  then have "\<not> keepsDay apia2011" unfolding keepsDay_def by blast
  moreover have "getDay (newDateIn apia2011 2011 11 30) = 6 \<and> getDate (newDateIn apia2011 2011 11 30) = 31
     \<and> getDay (newDate 2011 11 30) = 5 \<and> getDate (newDate 2011 11 30) = 30"
    by code_simp
  ultimately show ?thesis by simp
qed

section \<open>The time normalizer\<close>

text \<open>C9: for every prayer name, an empty or white-space-only time string is normalized
  to the empty string.\<close>

theorem convertTo24Hour_blank:
  "(\<forall>c\<in>set s. isWhiteSpace c) \<Longrightarrow> convertTo24Hour (JStr s) p = Inr []"
  by (simp add: convertTo24Hour_JStr trim_Nil_iff)

theorem convertTo24Hour_blank_witness:
  "isWhiteSpace CHR '' '' \<and> isWhiteSpace CHR 0x09
     \<and> convertTo24Hour (JStr [CHR '' '', CHR 0x09]) ''Isha'' = Inr []
     \<and> convertTo24Hour (JStr []) ''Isha'' = Inr []"
  using convertTo24Hour_blank [of "[CHR '' '', CHR 0x09]" "''Isha''"]
    convertTo24Hour_blank [of "[]" "''Isha''"]
  by (simp add: isWhiteSpace_def)

text \<open>C5: for a time string that is not blank and a prayer name Fajr or Sunrise, a
  parsed hour of 12 is normalized to 0 and any other parsed hour is left as it is; the
  result is that hour and the parsed minute, each padded to two digits.\<close>

theorem convertTo24Hour_morning:
  assumes "trim s \<noteq> []" and "firstTime s = Inr t" and "parseHours t = Num h"
    and "p = ''Fajr'' \<or> p = ''Sunrise''"
  shows "adjustHours p (parseHours t) = Num (if h = 12 then 0 else h)
       \<and> convertTo24Hour (JStr s) p
           = Inr (formatTime (Num (if h = 12 then 0 else h)) (parseMinutes t))"
proof -
  have a: "adjustHours p (parseHours t) = Num (if h = 12 then 0 else h)"
    using assms(3,4) by (simp add: adjustHours_morning)
  have "convertTo24Hour (JStr s) p = Inr (convertParsed t p)"
    using assms(1,2) by (simp add: convertTo24Hour_JStr firstTime_eq)
  with a show ?thesis by (simp add: convertParsed_def)
qed

theorem convertTo24Hour_morning_witness:
  "trim ''12:05'' \<noteq> [] \<and> firstTime ''12:05'' = Inr ''12:05'' \<and> parseHours ''12:05'' = Num 12
     \<and> convertTo24Hour (JStr ''12:05'') ''Fajr'' = Inr ''00:05''
     \<and> parseHours ''5:30'' = Num 5
     \<and> convertTo24Hour (JStr ''5:30'') ''Sunrise'' = Inr ''05:30''"
proof -
  have h1: "trim ''12:05'' \<noteq> []" by code_simp
  have h2: "firstTime ''12:05'' = Inr ''12:05''" by code_simp
  have h3: "parseHours ''12:05'' = Num 12" by code_simp
  have e1: "formatTime (Num (if (12::int) = 12 then 0 else 12)) (parseMinutes ''12:05'') = ''00:05''"
    by code_simp
  have k1: "trim ''5:30'' \<noteq> []" by code_simp
  have k2: "firstTime ''5:30'' = Inr ''5:30''" by code_simp
  have k3: "parseHours ''5:30'' = Num 5" by code_simp
  have e2: "formatTime (Num (if (5::int) = 12 then 0 else 5)) (parseMinutes ''5:30'') = ''05:30''"
    by code_simp
  show ?thesis
    using convertTo24Hour_morning [OF h1 h2 h3, of "''Fajr''"]
      convertTo24Hour_morning [OF k1 k2 k3, of "''Sunrise''"] h1 h2 h3 k3 e1 e2
    by simp
qed

text \<open>The afternoon and evening names that the function knows: a parsed hour of 12
  stays, any other gets 12 added.\<close>

lemma convertTo24Hour_afternoon:
  assumes "trim s \<noteq> []" and "firstTime s = Inr t" and "parseHours t = Num h"
    and "p = ''Dhuhr'' \<or> p = ''Asr'' \<or> p = ''Magrib'' \<or> p = ''Isha''"
  shows "convertTo24Hour (JStr s) p
           = Inr (formatTime (Num (if h = 12 then 12 else h + 12)) (parseMinutes t))"
proof -
  have a: "adjustHours p (parseHours t) = Num (if h = 12 then 12 else h + 12)"
    using assms(3,4) by (simp add: adjustHours_evening)
  have "convertTo24Hour (JStr s) p = Inr (convertParsed t p)"
    using assms(1,2) by (simp add: convertTo24Hour_JStr firstTime_eq)
  with a show ?thesis by (simp add: convertParsed_def)
qed

text \<open>C1: the claim is that 12 is added to an hour other than 12 for each of Dhuhr, Asr,
  Maghrib, Magrib and Isha. The function compares the name with the spelling Magrib
  only: under the name Maghrib the hour of "6:30" stays 6, where Magrib gives 18. The
  rows take an entry under either spelling, so that a page that spells the name Maghrib
  gets a morning time in the Maghrib column.\<close>

theorem convertTo24Hour_Maghrib_unshifted:
  "convertTo24Hour (JStr ''6:30'') ''Maghrib'' = Inr ''06:30''
     \<and> convertTo24Hour (JStr ''6:30'') ''Magrib'' = Inr ''18:30''
     \<and> adjustHours ''Maghrib'' (Num 6) = Num 6
     \<and> processPrayer (''Maghrib'', \<lparr>start = ''6:30'', iqamah = ''6:40''\<rparr>)
           (emptyAthanRow, emptyIqamaRow)
         = Inr (AList.update ''Maghrib'' ''06:30'' emptyAthanRow,
                AList.update ''Maghrib'' ''06:40'' emptyIqamaRow)"
  by code_simp

text \<open>C6: of a time string with a comma, only the part before the first comma, with
  the white space around it removed, is normalized; "1:00,2:30" for Isha gives "13:00".\<close>

theorem convertTo24Hour_first_of_several:
  "CHR '','' \<in> set s \<Longrightarrow>
     convertTo24Hour (JStr s) p
       = Inr (convertParsed (trim (takeWhile (\<lambda>c. c \<noteq> CHR '','') s)) p)"
proof -
  assume c: "CHR '','' \<in> set s"
  have "\<not> isWhiteSpace CHR '',''" by (simp add: isWhiteSpace_def)
  with c have "trim s \<noteq> []" by (auto simp: trim_Nil_iff)
  with c show ?thesis by (simp add: convertTo24Hour_JStr)
qed

theorem convertTo24Hour_first_of_several_witness:
  "CHR '','' \<in> set ''1:00,2:30''
     \<and> trim (takeWhile (\<lambda>c. c \<noteq> CHR '','') ''1:00,2:30'') = ''1:00''
     \<and> convertTo24Hour (JStr ''1:00,2:30'') ''Isha'' = Inr ''13:00''"
proof -
  have h: "CHR '','' \<in> set ''1:00,2:30''" by simp
  have t: "trim (takeWhile (\<lambda>c. c \<noteq> CHR '','') ''1:00,2:30'') = ''1:00''" by code_simp
  have e: "convertParsed ''1:00'' ''Isha'' = ''13:00''" by code_simp
  show ?thesis
    using convertTo24Hour_first_of_several [OF h, of "''Isha''"] h t e by simp
qed

text \<open>C10, as stated, promises a result with "NaN" in it for every non-empty string
  without a numeric hour and minute. A single space is such a string, and its result is
  the empty string.\<close>

theorem convertTo24Hour_space_counterexample:
  "'' '' \<noteq> [] \<and> parseHours '' '' = NaN \<and> parseMinutes '' '' = NaN
     \<and> convertTo24Hour (JStr '' '') ''Fajr'' = Inr []"
  by code_simp

text \<open>C10, amended: on a string the function never throws. When the string is not
  blank and the hour or the minute of the time it reads does not parse, the result has
  "NaN" in it, and so is neither empty nor of the shape "HH:MM".\<close>

theorem convertTo24Hour_total_NaN:
  "(\<exists>r. convertTo24Hour (JStr s) p = Inr r)
   \<and> (trim s \<noteq> [] \<longrightarrow> firstTime s = Inr t \<longrightarrow> parseHours t = NaN \<or> parseMinutes t = NaN \<longrightarrow>
        (\<exists>u v. convertTo24Hour (JStr s) p = Inr (u @ ''NaN'' @ v))
        \<and> convertTo24Hour (JStr s) p \<noteq> Inr []
        \<and> (\<forall>r. convertTo24Hour (JStr s) p = Inr r \<longrightarrow> \<not> isHHMM r))"
proof (intro conjI impI)
  show "\<exists>r. convertTo24Hour (JStr s) p = Inr r"
    by (simp add: convertTo24Hour_JStr)
next
  assume n: "trim s \<noteq> []" and f: "firstTime s = Inr t"
    and q: "parseHours t = NaN \<or> parseMinutes t = NaN"
  have c: "convertTo24Hour (JStr s) p = Inr (convertParsed t p)"
    using n f by (simp add: convertTo24Hour_JStr firstTime_eq)
  have "adjustHours p (parseHours t) = NaN \<or> parseMinutes t = NaN"
    using q by (auto simp: adjustHours_NaN)
  then obtain u v where uv: "convertParsed t p = u @ ''NaN'' @ v"
    unfolding convertParsed_def using formatTime_NaN by blast
  have cu: "convertTo24Hour (JStr s) p = Inr (u @ ''NaN'' @ v)"
    using c uv by (simp only:)
  then show "\<exists>u v. convertTo24Hour (JStr s) p = Inr (u @ ''NaN'' @ v)"
    by blast
  show "convertTo24Hour (JStr s) p \<noteq> Inr []"
    using c uv by simp
  show "\<forall>r. convertTo24Hour (JStr s) p = Inr r \<longrightarrow> \<not> isHHMM r"
  proof (intro allI impI)
    fix r
    assume "convertTo24Hour (JStr s) p = Inr r"
    with c uv have "CHR ''N'' \<in> set r" by auto
    then show "\<not> isHHMM r" using isHHMM_no_N by blast
  qed
qed

theorem convertTo24Hour_total_NaN_witness:
  "trim ''abc'' \<noteq> [] \<and> firstTime ''abc'' = Inr ''abc'' \<and> parseHours ''abc'' = NaN
     \<and> (\<exists>u v. convertTo24Hour (JStr ''abc'') ''Fajr'' = Inr (u @ ''NaN'' @ v))
     \<and> convertTo24Hour (JStr ''abc'') ''Fajr'' = Inr ''NaN:NaN''
     \<and> convertTo24Hour (JStr ''7'') ''Fajr'' = Inr ''07:NaN''"
proof -
  have h1: "trim ''abc'' \<noteq> []" by code_simp
  have h2: "firstTime ''abc'' = Inr ''abc''" by code_simp
  have h3: "parseHours ''abc'' = NaN" by code_simp
  have e: "convertTo24Hour (JStr ''abc'') ''Fajr'' = Inr ''NaN:NaN''
     \<and> convertTo24Hour (JStr ''7'') ''Fajr'' = Inr ''07:NaN''" by code_simp
  show ?thesis
    using convertTo24Hour_total_NaN [of "''abc''" "''Fajr''" "''abc''"] h1 h2 h3 e
    by simp
qed

section \<open>The run\<close>

text \<open>C2: when no scraped row has a positive day number, the run ends in an exception
  and has written nothing but the raw data, so no month table; with at least one such
  row the run returns its tables, so that this is the only condition that aborts it.\<close>

theorem extractPrayerTimes_aborts_iff_no_valid_day:
  "(filter (\<lambda>d. 0 < dayNumber d) rows = [] \<longrightarrow>
      (\<exists>e. extractPrayerTimes rows today = ([RawData rows], Inl e)))
   \<and> (filter (\<lambda>d. 0 < dayNumber d) rows \<noteq> [] \<longrightarrow>
      (\<exists>tables. snd (extractPrayerTimes rows today) = Inr tables))"
proof -
  obtain recs where p: "forEach processDay rows [] = Inr recs"
    and m: "map dayNumber recs = map dayNumber (filter (\<lambda>d. 0 < dayNumber d) rows)"
    using forEach_processDay [of rows "[]"] by auto
  have l: "recs = [] \<longleftrightarrow> filter (\<lambda>d. 0 < dayNumber d) rows = []"
    using m by (metis map_is_Nil_conv)
  show ?thesis
  proof (intro conjI impI)
    assume "filter (\<lambda>d. 0 < dayNumber d) rows = []"
    then have "firstRecord recs = Inl TypeError" using l by (simp add: firstRecord_def)
    then show "\<exists>e. extractPrayerTimes rows today = ([RawData rows], Inl e)"
      using p by (simp add: extractPrayerTimes_def Let_def)
  next
    assume "filter (\<lambda>d. 0 < dayNumber d) rows \<noteq> []"
    then have "recs \<noteq> []" using l by simp
    then show "\<exists>tables. snd (extractPrayerTimes rows today) = Inr tables"
      using extractPrayerTimes_ok [OF p _ refl refl refl refl refl, of today] by simp
  qed
qed

theorem extractPrayerTimes_aborts_iff_no_valid_day_witness:
  "filter (\<lambda>d. 0 < dayNumber d) [unreadRow] = []
     \<and> (\<exists>e. extractPrayerTimes [unreadRow] juneFirst = ([RawData [unreadRow]], Inl e))
     \<and> filter (\<lambda>d. 0 < dayNumber d) (unreadRow # juneWeek) \<noteq> []
     \<and> (\<exists>tables. snd (extractPrayerTimes (unreadRow # juneWeek) juneFirst) = Inr tables)"
proof -
  have h1: "filter (\<lambda>d. 0 < dayNumber d) [unreadRow] = []"
    by (simp add: unreadRow_def)
  have h2: "filter (\<lambda>d. 0 < dayNumber d) (unreadRow # juneWeek) \<noteq> []"
    by (simp add: unreadRow_def juneWeek_def)
  show ?thesis
    using extractPrayerTimes_aborts_iff_no_valid_day [of "[unreadRow]" juneFirst]
      extractPrayerTimes_aborts_iff_no_valid_day [of "unreadRow # juneWeek" juneFirst] h1 h2
    by simp
qed

text \<open>C7: a scraped row whose day number is not positive leaves the processed records
  as they are without it, and every entry of the day-of-week map is the processing of a
  scraped row with a positive day number.\<close>

theorem invalid_day_skipped:
  assumes "dayNumber r \<le> 0"
  shows "forEach processDay (xs @ r # ys) acc = forEach processDay (xs @ ys) acc
       \<and> (\<forall>recs w e. forEach processDay (xs @ r # ys) [] = Inr recs \<longrightarrow>
             buildDayOfWeekMap (sort_key dayNumber recs) w = Some e \<longrightarrow>
             (\<forall>rec\<in>set recs. 0 < dayNumber rec)
             \<and> (\<exists>d\<in>set (xs @ ys). 0 < dayNumber d \<and> dayOfWeek d = w
                  \<and> forEach processPrayer (prayers d) (emptyAthanRow, emptyIqamaRow) = Inr e))"
proof (intro conjI allI impI)
  show "forEach processDay (xs @ r # ys) acc = forEach processDay (xs @ ys) acc"
    using assms by (rule forEach_processDay_skip)
next
  fix recs w e
  assume a: "forEach processDay (xs @ r # ys) [] = Inr recs"
  assume b: "buildDayOfWeekMap (sort_key dayNumber recs) w = Some e"
  have a': "forEach processDay (xs @ ys) [] = Inr recs"
    using a forEach_processDay_skip [OF assms, of xs ys "[]"] by simp
  obtain recs' where "forEach processDay (xs @ ys) [] = Inr recs'"
    and fr': "\<forall>rec\<in>set recs'. fromRow (xs @ ys) rec"
    using forEach_processDay [of "xs @ ys" "[]"] by auto
  with a' have fr: "\<forall>rec\<in>set recs. fromRow (xs @ ys) rec" by simp
  show "\<forall>rec\<in>set recs. 0 < dayNumber rec"
    using fr by (auto simp: fromRow_def)
  from b have "fold dayOfWeekMapStep (sort_key dayNumber recs) Map.empty w = Some e"
    by (simp add: buildDayOfWeekMap_def)
  then obtain rec where "rec \<in> set (sort_key dayNumber recs)" "dayOfWeek rec = w"
    "e = (athan rec, iqama rec)"
    using buildDayOfWeekMap_from by fastforce
  then show "\<exists>d\<in>set (xs @ ys). 0 < dayNumber d \<and> dayOfWeek d = w
                  \<and> forEach processPrayer (prayers d) (emptyAthanRow, emptyIqamaRow) = Inr e"
    using fr unfolding fromRow_def by fastforce
qed

theorem invalid_day_skipped_witness:
  "dayNumber unreadRow \<le> 0
     \<and> forEach processDay (unreadRow # juneWeek) [] = forEach processDay juneWeek []
     \<and> forEach processDay (unreadRow # juneWeek) [] = Inr juneRecords"
proof -
  have h: "dayNumber unreadRow \<le> 0" by (simp add: unreadRow_def)
  have e: "forEach processDay juneWeek [] = Inr juneRecords" by code_simp
  show ?thesis
    using invalid_day_skipped [OF h, of "[]" juneWeek "[]"] h e by simp
qed

text \<open>C4: an entry named Magrib is stored under the key Maghrib in both rows, and every
  row of every table that the run writes or returns has the key Maghrib and not the key
  Magrib.\<close>

theorem written_rows_keyed_Maghrib:
  "(hasOwnProperty a ''Maghrib'' \<longrightarrow> hasOwnProperty i ''Maghrib'' \<longrightarrow>
      convertTo24Hour (JStr (start t)) ''Magrib'' = Inr start24 \<longrightarrow>
      convertTo24Hour (JStr (iqamah t)) ''Magrib'' = Inr iqamah24 \<longrightarrow>
      processPrayer (''Magrib'', t) (a, i)
        = Inr (AList.update ''Maghrib'' start24 a, AList.update ''Maghrib'' iqamah24 i))
   \<and> (\<forall>row\<in>set (writtenRows (fst (extractPrayerTimes rows today))).
        ''Maghrib'' \<in> set (map fst (times row)) \<and> ''Magrib'' \<notin> set (map fst (times row)))
   \<and> (\<forall>m. snd (extractPrayerTimes rows today) = Inr m \<longrightarrow>
        (\<forall>row\<in>set (fst m @ snd m).
           ''Maghrib'' \<in> set (map fst (times row)) \<and> ''Magrib'' \<notin> set (map fst (times row))))"
proof -
  have w: "''Maghrib'' \<in> set (map fst (times row)) \<and> ''Magrib'' \<notin> set (map fst (times row))"
    if "row \<in> set (writtenRows (fst (extractPrayerTimes rows today)))" for row
    using written_rows_keys [OF that]
    by (auto simp: emptyAthanRow_def emptyIqamaRow_def)
  show ?thesis
  proof (intro conjI impI allI ballI)
    assume "hasOwnProperty a ''Maghrib''" "hasOwnProperty i ''Maghrib''"
      "convertTo24Hour (JStr (start t)) ''Magrib'' = Inr start24"
      "convertTo24Hour (JStr (iqamah t)) ''Magrib'' = Inr iqamah24"
    then show "processPrayer (''Magrib'', t) (a, i)
        = Inr (AList.update ''Maghrib'' start24 a, AList.update ''Maghrib'' iqamah24 i)"
      by (simp add: processPrayer_def Let_def)
  next
    fix row
    assume "row \<in> set (writtenRows (fst (extractPrayerTimes rows today)))"
    then show "''Maghrib'' \<in> set (map fst (times row))" using w by blast
  next
    fix row
    assume "row \<in> set (writtenRows (fst (extractPrayerTimes rows today)))"
    then show "''Magrib'' \<notin> set (map fst (times row))" using w by blast
  next
    fix m row
    assume "snd (extractPrayerTimes rows today) = Inr m" "row \<in> set (fst m @ snd m)"
    then have "row \<in> set (writtenRows (fst (extractPrayerTimes rows today)))"
      by (rule returned_rows_written)
    then show "''Maghrib'' \<in> set (map fst (times row))" using w by blast
  next
    fix m row
    assume "snd (extractPrayerTimes rows today) = Inr m" "row \<in> set (fst m @ snd m)"
    then have "row \<in> set (writtenRows (fst (extractPrayerTimes rows today)))"
      by (rule returned_rows_written)
    then show "''Magrib'' \<notin> set (map fst (times row))" using w by blast
  qed
qed

theorem written_rows_keyed_Maghrib_witness:
  "hasOwnProperty emptyAthanRow ''Maghrib'' \<and> hasOwnProperty emptyIqamaRow ''Maghrib''
   \<and> convertTo24Hour (JStr ''9:05'') ''Magrib'' = Inr ''21:05''
   \<and> convertTo24Hour (JStr ''9:10'') ''Magrib'' = Inr ''21:10''
   \<and> processPrayer (''Magrib'', \<lparr>start = ''9:05'', iqamah = ''9:10''\<rparr>) (emptyAthanRow, emptyIqamaRow)
       = Inr (AList.update ''Maghrib'' ''21:05'' emptyAthanRow,
              AList.update ''Maghrib'' ''21:10'' emptyIqamaRow)
   \<and> \<lparr>day = 1, times = athan (hd juneRecords)\<rparr>
        \<in> set (writtenRows (fst (extractPrayerTimes juneWeek juneFirst)))
   \<and> ''Maghrib'' \<in> set (map fst (athan (hd juneRecords)))
   \<and> ''Magrib'' \<notin> set (map fst (athan (hd juneRecords)))"
proof -
  have h1: "hasOwnProperty emptyAthanRow ''Maghrib''" by code_simp
  have h2: "hasOwnProperty emptyIqamaRow ''Maghrib''" by code_simp
  have h3: "convertTo24Hour (JStr (start \<lparr>start = ''9:05'', iqamah = ''9:10''\<rparr>)) ''Magrib''
              = Inr ''21:05''" by code_simp
  have h4: "convertTo24Hour (JStr (iqamah \<lparr>start = ''9:05'', iqamah = ''9:10''\<rparr>)) ''Magrib''
              = Inr ''21:10''" by code_simp
  have h5: "\<lparr>day = 1, times = athan (hd juneRecords)\<rparr>
        \<in> set (writtenRows (fst (extractPrayerTimes juneWeek juneFirst)))" by code_simp
  show ?thesis
    using written_rows_keyed_Maghrib [of emptyAthanRow emptyIqamaRow
        "\<lparr>start = ''9:05'', iqamah = ''9:10''\<rparr>" "''21:05''" "''21:10''" juneWeek juneFirst]
      h1 h2 h3 h4 h5
    by fastforce
qed



section \<open>The month expander\<close>

text \<open>C3, as stated, has every expansion follow the three-step rule. The loop for the
  next month has no first step: for July 2026, expanded from the records of 1 and 3 June,
  its tables differ from those of the rule, since 1 July is a Wednesday and gets the
  times of Wednesday 3 June where the rule asks for the record with day number 1. The
  run on the two rows, started on 1 June 2026, writes that table for July.\<close>

theorem expandNextMonth_counterexample:
  "juneRecords \<noteq> [] \<and> sort_key dayNumber juneRecords = juneRecords
     \<and> getDate (newDate 2026 7 0) = 31
     \<and> expandNextMonth juneRecords (buildDayOfWeekMap juneRecords) 2026 6 31
         \<noteq> Inr (monthTables (expanderRule juneRecords (buildDayOfWeekMap juneRecords) 2026 6) 31)
     \<and> forEach processDay juneWeek [] = Inr juneRecords
     \<and> AthanCsv 6 (fst (monthTables
           (expanderRule juneRecords (buildDayOfWeekMap juneRecords) 2026 6) 31))
         \<notin> set (fst (extractPrayerTimes juneWeek juneFirst))
     \<and> AthanCsv 6 (fst (monthTables
           (patternRule juneRecords (buildDayOfWeekMap juneRecords) 2026 6) 31))
         \<in> set (fst (extractPrayerTimes juneWeek juneFirst))"
  by code_simp

text \<open>C3, amended: for a non-empty list of records, the loop for the current month
  gives one row for each day from 1 to the number of days, and the row of day d is the
  record with day number d if there is one, else the pattern entry of the weekday of the
  date, else the first record; the loop for the next month gives one row for each day
  as well, and the row of day d is the pattern entry of the weekday, else the first
  record. The number of days that the run passes is the length of the month.\<close>

theorem month_expansion_rows:
  assumes "records \<noteq> []"
  shows "expandCurrentMonth records pattern y m n
           = Inr (map (\<lambda>d. \<lparr>day = d, times = fst (expanderRule records pattern y m d)\<rparr>) [1..n],
                  map (\<lambda>d. \<lparr>day = d, times = snd (expanderRule records pattern y m d)\<rparr>) [1..n])
       \<and> expandNextMonth records pattern y m n
           = Inr (map (\<lambda>d. \<lparr>day = d, times = fst (patternRule records pattern y m d)\<rparr>) [1..n],
                  map (\<lambda>d. \<lparr>day = d, times = snd (patternRule records pattern y m d)\<rparr>) [1..n])
       \<and> (0 \<le> m \<and> m \<le> 11 \<longrightarrow> getDate (newDate y (m + 1) 0) = monthLength (jsYear y) m)"
  using expandCurrentMonth_eq [OF assms, of pattern y m n]
    expandNextMonth_eq [OF assms, of pattern y m n] last_day_of_month [of m y]
  by (simp add: monthTables_def)

theorem month_expansion_rows_witness:
  "juneRecords \<noteq> []
     \<and> expandCurrentMonth juneRecords (buildDayOfWeekMap juneRecords) 2026 5 30
         = Inr (map (\<lambda>d. \<lparr>day = d, times = fst (expanderRule juneRecords
                      (buildDayOfWeekMap juneRecords) 2026 5 d)\<rparr>) [1..30],
                map (\<lambda>d. \<lparr>day = d, times = snd (expanderRule juneRecords
                      (buildDayOfWeekMap juneRecords) 2026 5 d)\<rparr>) [1..30])
     \<and> getDate (newDate 2026 (5 + 1) 0) = 30
     \<and> expanderRule juneRecords (buildDayOfWeekMap juneRecords) 2026 5 3
         = (athan (juneRecords ! 1), iqama (juneRecords ! 1))
     \<and> expanderRule juneRecords (buildDayOfWeekMap juneRecords) 2026 5 10
         = (athan (juneRecords ! 1), iqama (juneRecords ! 1))
     \<and> expanderRule juneRecords (buildDayOfWeekMap juneRecords) 2026 5 9
         = (athan (juneRecords ! 0), iqama (juneRecords ! 0))"
proof -
  have h: "juneRecords \<noteq> []" by (simp add: juneRecords_def)
  have m: "(0::int) \<le> 5 \<and> (5::int) \<le> 11" by simp
  have l: "monthLength (jsYear 2026) 5 = 30" by code_simp
  have e: "expanderRule juneRecords (buildDayOfWeekMap juneRecords) 2026 5 3
         = (athan (juneRecords ! 1), iqama (juneRecords ! 1))
     \<and> expanderRule juneRecords (buildDayOfWeekMap juneRecords) 2026 5 10
         = (athan (juneRecords ! 1), iqama (juneRecords ! 1))
     \<and> expanderRule juneRecords (buildDayOfWeekMap juneRecords) 2026 5 9
         = (athan (juneRecords ! 0), iqama (juneRecords ! 0))" by code_simp
  show ?thesis
    using month_expansion_rows [OF h, of "buildDayOfWeekMap juneRecords" 2026 5 30] h m l e
    by simp
qed

end
